theory Spec2Isabelle
  imports Main
begin

section \<open>Data model\<close>

text \<open>
  The header that is modelled is the one that compiles: the file with \<^verbatim>\<open>#pragma once\<close>,
  children held by \<^verbatim>\<open>std::unique_ptr\<close>, and a duplicate policy. (\<^verbatim>\<open>BTree.hpp\<close> is an
  earlier draft of it that is not well-formed C++, so it has no behaviour to model.)
  The node has the fields \<^verbatim>\<open>_left\<close>, \<^verbatim>\<open>_right\<close>, \<^verbatim>\<open>_value\<close>, \<^verbatim>\<open>_visited\<close>, in this
  order. A child slot is a nullable owner of a node, so it is an \<open>option\<close>; ownership is
  exclusive, so a node and everything below it is a value. The selectors carry the names
  of the accessors \<^verbatim>\<open>left()\<close>, \<^verbatim>\<open>right()\<close>, \<^verbatim>\<open>get()\<close> and \<^verbatim>\<open>isVisited()\<close>.

  The element type \<^verbatim>\<open>T\<close> is a type variable. Its \<^verbatim>\<open>operator==\<close> belongs to \<^verbatim>\<open>T\<close>, not
  to the tree, and nothing makes it an equivalence (on \<^verbatim>\<open>double\<close> a NaN differs from
  itself; a class may compare a key only): it is a parameter \<open>eq\<close> of every operation
  that uses it, \<open>eq a b\<close> standing for \<^verbatim>\<open>a == b\<close> with the operands in this order. The
  comparator \<^verbatim>\<open>BtreeCmp<T>\<close> is a function \<open>'a \<Rightarrow> 'a \<Rightarrow> bool\<close> of the two values, as is
  \<open>eq\<close>: they have no state and answer the same at every call.
\<close>

datatype 'a BtreeNode =
  BtreeNode (left: "'a BtreeNode option") (right: "'a BtreeNode option") (get: 'a) (isVisited: bool)

text \<open>
  \<^verbatim>\<open>BtreeSearchResult<T>\<close> is an optional reference to the \<^verbatim>\<open>_value\<close> field of a node
  of the tree. A reference is modelled by the place of that node: the child slots to go
  through, starting at the node the search was called on.
\<close>

datatype step = GoLeft | GoRight

type_synonym ref = "step list"

text \<open>Dereferencing a null \<^verbatim>\<open>unique_ptr\<close>.\<close>

datatype error = NullDereference

record 'a Btree =
  root :: "'a BtreeNode option"
  cmp :: "'a \<Rightarrow> 'a \<Rightarrow> bool"
  allow_duplicates :: bool

section \<open>Node operations\<close>

text \<open>\<^verbatim>\<open>BtreeNode(T&)\<close>, \<^verbatim>\<open>BtreeNode(T&&)\<close> and \<^verbatim>\<open>makeNode\<close>: the field initialisers.\<close>

definition makeNode :: "'a \<Rightarrow> 'a BtreeNode" where
  "makeNode v = BtreeNode None None v False"

text \<open>
  \<^verbatim>\<open>BtreeNode::insert\<close>. The two overloads (\<^verbatim>\<open>T&\<close> and \<^verbatim>\<open>T&&\<close>) have the same body.
  The method mutates the node it is called on; the model returns the node afterwards.
  The duplicate test is \<^verbatim>\<open>value == _value\<close>.
\<close>

fun BtreeNode_insert ::
  "('a \<Rightarrow> 'a \<Rightarrow> bool) \<Rightarrow> 'a \<Rightarrow> ('a \<Rightarrow> 'a \<Rightarrow> bool) \<Rightarrow> bool \<Rightarrow> 'a BtreeNode \<Rightarrow> 'a BtreeNode" where
  "BtreeNode_insert eq v c ad (BtreeNode l r x vis) =
    (if \<not> ad \<and> eq v x then BtreeNode l r x vis
     else if c v x then
       (case l of Some ln \<Rightarrow> BtreeNode (Some (BtreeNode_insert eq v c ad ln)) r x vis
                | None \<Rightarrow> BtreeNode (Some (makeNode v)) r x vis)
     else
       (case r of Some rn \<Rightarrow> BtreeNode l (Some (BtreeNode_insert eq v c ad rn)) x vis
                | None \<Rightarrow> BtreeNode l (Some (makeNode v)) x vis))"

text \<open>
  \<^verbatim>\<open>BtreeNode::search\<close>, the \<^verbatim>\<open>const\<close> overload: it cannot write to the node, so it is
  a function of the node alone. A reference found in a child is, seen from this node, the
  reference behind that child's slot. The found test is \<^verbatim>\<open>_value == value\<close>.
\<close>

fun BtreeNode_search_const ::
  "('a \<Rightarrow> 'a \<Rightarrow> bool) \<Rightarrow> 'a \<Rightarrow> ('a \<Rightarrow> 'a \<Rightarrow> bool) \<Rightarrow> 'a BtreeNode \<Rightarrow> ref option" where
  "BtreeNode_search_const eq v c (BtreeNode l r x vis) =
    (if eq x v then Some []
     else if c v x then
       (case l of Some ln \<Rightarrow> map_option ((#) GoLeft) (BtreeNode_search_const eq v c ln)
                | None \<Rightarrow> None)
     else
       (case r of Some rn \<Rightarrow> map_option ((#) GoRight) (BtreeNode_search_const eq v c rn)
                | None \<Rightarrow> None))"

text \<open>
  \<^verbatim>\<open>BtreeNode::search\<close>, the overload on a mutable node: the node is threaded through
  the call and through the recursive call on the child, and returned as the call leaves
  it.
\<close>

fun BtreeNode_search ::
  "('a \<Rightarrow> 'a \<Rightarrow> bool) \<Rightarrow> 'a \<Rightarrow> ('a \<Rightarrow> 'a \<Rightarrow> bool) \<Rightarrow> 'a BtreeNode \<Rightarrow> ref option \<times> 'a BtreeNode" where
  "BtreeNode_search eq v c (BtreeNode l r x vis) =
    (if eq x v then (Some [], BtreeNode l r x vis)
     else if c v x then
       (case l of Some ln \<Rightarrow>
            (case BtreeNode_search eq v c ln of (res, ln') \<Rightarrow>
               (map_option ((#) GoLeft) res, BtreeNode (Some ln') r x vis))
        | None \<Rightarrow> (None, BtreeNode l r x vis))
     else
       (case r of Some rn \<Rightarrow>
            (case BtreeNode_search eq v c rn of (res, rn') \<Rightarrow>
               (map_option ((#) GoRight) res, BtreeNode l (Some rn') x vis))
        | None \<Rightarrow> (None, BtreeNode l r x vis)))"

text \<open>
  \<^verbatim>\<open>BtreeNode::unvisit\<close>; the default argument is \<^verbatim>\<open>false\<close>. The parameter is a
  \<^verbatim>\<open>const bool&\<close>; the model takes the value it refers to, which stays the same during the
  call when the argument is a temporary (the literal \<^verbatim>\<open>true\<close> that \<^verbatim>\<open>unvisitNodes\<close> passes,
  the default) or any \<^verbatim>\<open>bool\<close> outside the subtree. A call that passes a reference to a
  visited flag of the subtree itself, which the method clears while it runs, is outside
  this model.
\<close>

fun BtreeNode_unvisit :: "bool \<Rightarrow> 'a BtreeNode \<Rightarrow> 'a BtreeNode" where
  "BtreeNode_unvisit unvisitSubNodes (BtreeNode l r x vis) =
    (if unvisitSubNodes then
       BtreeNode (case l of Some ln \<Rightarrow> Some (BtreeNode_unvisit unvisitSubNodes ln) | None \<Rightarrow> None)
                 (case r of Some rn \<Rightarrow> Some (BtreeNode_unvisit unvisitSubNodes rn) | None \<Rightarrow> None)
                 x False
     else BtreeNode l r x False)"

text \<open>\<^verbatim>\<open>BtreeNode::visit\<close>.\<close>

fun BtreeNode_visit :: "'a BtreeNode \<Rightarrow> 'a BtreeNode" where
  "BtreeNode_visit (BtreeNode l r x vis) = BtreeNode l r x True"

section \<open>Tree operations\<close>

text \<open>The constructor \<^verbatim>\<open>Btree(cmp, allow_duplicates = true)\<close>: the root starts null.\<close>

definition Btree_new :: "('a \<Rightarrow> 'a \<Rightarrow> bool) \<Rightarrow> bool \<Rightarrow> 'a Btree" where
  "Btree_new c ad = \<lparr>root = None, cmp = c, allow_duplicates = ad\<rparr>"

text \<open>
  \<^verbatim>\<open>Btree::insert\<close> (both overloads). The method returns \<^verbatim>\<open>*this\<close>: the value returned
  by the model is the tree object after the call.
\<close>

definition Btree_insert :: "('a \<Rightarrow> 'a \<Rightarrow> bool) \<Rightarrow> 'a \<Rightarrow> 'a Btree \<Rightarrow> 'a Btree" where
  "Btree_insert eq v t =
    (case root t of
       None \<Rightarrow> t\<lparr>root := Some (makeNode v)\<rparr>
     | Some n \<Rightarrow> t\<lparr>root := Some (BtreeNode_insert eq v (cmp t) (allow_duplicates t) n)\<rparr>)"

text \<open>\<^verbatim>\<open>Btree::search\<close>, the \<^verbatim>\<open>const\<close> overload and the overload on a mutable tree.\<close>

definition Btree_search_const :: "('a \<Rightarrow> 'a \<Rightarrow> bool) \<Rightarrow> 'a \<Rightarrow> 'a Btree \<Rightarrow> ref option" where
  "Btree_search_const eq v t =
    (case root t of Some n \<Rightarrow> BtreeNode_search_const eq v (cmp t) n | None \<Rightarrow> None)"

definition Btree_search :: "('a \<Rightarrow> 'a \<Rightarrow> bool) \<Rightarrow> 'a \<Rightarrow> 'a Btree \<Rightarrow> ref option \<times> 'a Btree" where
  "Btree_search eq v t =
    (case root t of
       Some n \<Rightarrow> (case BtreeNode_search eq v (cmp t) n of (res, n') \<Rightarrow> (res, t\<lparr>root := Some n'\<rparr>))
     | None \<Rightarrow> (None, t))"

text \<open>
  \<^verbatim>\<open>Btree::unvisitNodes\<close>: \<^verbatim>\<open>_root->unvisit(true)\<close> with no test of \<^verbatim>\<open>_root\<close>. On a null
  root the call dereferences a null pointer, which is the error branch of the model.
\<close>

definition Btree_unvisitNodes :: "'a Btree \<Rightarrow> error + 'a Btree" where
  "Btree_unvisitNodes t =
    (case root t of
       None \<Rightarrow> Inl NullDereference
     | Some n \<Rightarrow> Inr (t\<lparr>root := Some (BtreeNode_unvisit True n)\<rparr>))"

section \<open>Observations on nodes and trees\<close>

text \<open>Reading through a reference: the \<^verbatim>\<open>_value\<close> of the node at that place, if there is one.\<close>

fun deref :: "'a BtreeNode \<Rightarrow> ref \<Rightarrow> 'a option" where
  "deref n [] = Some (get n)"
| "deref n (GoLeft # p) = (case left n of Some ln \<Rightarrow> deref ln p | None \<Rightarrow> None)"
| "deref n (GoRight # p) = (case right n of Some rn \<Rightarrow> deref rn p | None \<Rightarrow> None)"

definition Btree_deref :: "'a Btree \<Rightarrow> ref \<Rightarrow> 'a option" where
  "Btree_deref t p = (case root t of Some n \<Rightarrow> deref n p | None \<Rightarrow> None)"

text \<open>The values stored in a node's subtree, the node's own first.\<close>

fun elems :: "'a BtreeNode \<Rightarrow> 'a list" where
  "elems (BtreeNode l r x vis) =
    x # (case l of Some ln \<Rightarrow> elems ln | None \<Rightarrow> [])
      @ (case r of Some rn \<Rightarrow> elems rn | None \<Rightarrow> [])"

text \<open>The nodes of a node's subtree, in the same order.\<close>

fun nodes :: "'a BtreeNode \<Rightarrow> 'a BtreeNode list" where
  "nodes (BtreeNode l r x vis) =
    BtreeNode l r x vis # (case l of Some ln \<Rightarrow> nodes ln | None \<Rightarrow> [])
                        @ (case r of Some rn \<Rightarrow> nodes rn | None \<Rightarrow> [])"

text \<open>Structure and stored values of a subtree: the node without its visited flags.\<close>

datatype 'a skeleton = Skeleton "'a skeleton option" "'a skeleton option" 'a

fun shape :: "'a BtreeNode \<Rightarrow> 'a skeleton" where
  "shape (BtreeNode l r x vis) =
    Skeleton (case l of Some ln \<Rightarrow> Some (shape ln) | None \<Rightarrow> None)
             (case r of Some rn \<Rightarrow> Some (shape rn) | None \<Rightarrow> None) x"

text \<open>The number of nodes on the longest path from a node down to a leaf.\<close>

fun height :: "'a BtreeNode \<Rightarrow> nat" where
  "height (BtreeNode l r x vis) =
    Suc (max (case l of Some ln \<Rightarrow> height ln | None \<Rightarrow> 0)
             (case r of Some rn \<Rightarrow> height rn | None \<Rightarrow> 0))"

definition Btree_height :: "'a Btree \<Rightarrow> nat" where
  "Btree_height t = (case root t of Some n \<Rightarrow> height n | None \<Rightarrow> 0)"

text \<open>
  The partition of a subtree by the comparator: at every node, each value below the left
  slot answers \<open>True\<close> to \<open>c value node_value\<close>, each value below the right slot \<open>False\<close>.
\<close>

fun partitioned :: "('a \<Rightarrow> 'a \<Rightarrow> bool) \<Rightarrow> 'a BtreeNode \<Rightarrow> bool" where
  "partitioned c (BtreeNode l r x vis) =
    ((case l of Some ln \<Rightarrow> list_all (\<lambda>y. c y x) (elems ln) \<and> partitioned c ln | None \<Rightarrow> True) \<and>
     (case r of Some rn \<Rightarrow> list_all (\<lambda>y. \<not> c y x) (elems rn) \<and> partitioned c rn | None \<Rightarrow> True))"

definition Btree_partitioned :: "'a Btree \<Rightarrow> bool" where
  "Btree_partitioned t = (case root t of Some n \<Rightarrow> partitioned (cmp t) n | None \<Rightarrow> True)"

section \<open>The operations on a bounded call stack\<close>

text \<open>
  The recursive methods once more, with a budget of nested calls: every call of a method
  on a node takes one unit, a call with no unit left does not return (\<open>None\<close>). The
  bodies are those of the methods above.
\<close>

fun BtreeNode_insert_fuel ::
  "nat \<Rightarrow> ('a \<Rightarrow> 'a \<Rightarrow> bool) \<Rightarrow> 'a \<Rightarrow> ('a \<Rightarrow> 'a \<Rightarrow> bool) \<Rightarrow> bool \<Rightarrow> 'a BtreeNode \<Rightarrow> 'a BtreeNode option" where
  "BtreeNode_insert_fuel 0 eq v c ad n = None"
| "BtreeNode_insert_fuel (Suc k) eq v c ad (BtreeNode l r x vis) =
    (if \<not> ad \<and> eq v x then Some (BtreeNode l r x vis)
     else if c v x then
       (case l of
          Some ln \<Rightarrow> map_option (\<lambda>ln'. BtreeNode (Some ln') r x vis) (BtreeNode_insert_fuel k eq v c ad ln)
        | None \<Rightarrow> Some (BtreeNode (Some (makeNode v)) r x vis))
     else
       (case r of
          Some rn \<Rightarrow> map_option (\<lambda>rn'. BtreeNode l (Some rn') x vis) (BtreeNode_insert_fuel k eq v c ad rn)
        | None \<Rightarrow> Some (BtreeNode l (Some (makeNode v)) x vis)))"

fun BtreeNode_search_fuel ::
  "nat \<Rightarrow> ('a \<Rightarrow> 'a \<Rightarrow> bool) \<Rightarrow> 'a \<Rightarrow> ('a \<Rightarrow> 'a \<Rightarrow> bool) \<Rightarrow> 'a BtreeNode \<Rightarrow>
     (ref option \<times> 'a BtreeNode) option" where
  "BtreeNode_search_fuel 0 eq v c n = None"
| "BtreeNode_search_fuel (Suc k) eq v c (BtreeNode l r x vis) =
    (if eq x v then Some (Some [], BtreeNode l r x vis)
     else if c v x then
       (case l of
          Some ln \<Rightarrow>
            map_option (\<lambda>(res, ln'). (map_option ((#) GoLeft) res, BtreeNode (Some ln') r x vis))
              (BtreeNode_search_fuel k eq v c ln)
        | None \<Rightarrow> Some (None, BtreeNode l r x vis))
     else
       (case r of
          Some rn \<Rightarrow>
            map_option (\<lambda>(res, rn'). (map_option ((#) GoRight) res, BtreeNode l (Some rn') x vis))
              (BtreeNode_search_fuel k eq v c rn)
        | None \<Rightarrow> Some (None, BtreeNode l r x vis)))"

fun BtreeNode_unvisit_fuel :: "nat \<Rightarrow> bool \<Rightarrow> 'a BtreeNode \<Rightarrow> 'a BtreeNode option" where
  "BtreeNode_unvisit_fuel 0 unvisitSubNodes n = None"
| "BtreeNode_unvisit_fuel (Suc k) unvisitSubNodes (BtreeNode l r x vis) =
    (if unvisitSubNodes then
       (case (case l of Some ln \<Rightarrow> map_option Some (BtreeNode_unvisit_fuel k unvisitSubNodes ln)
                      | None \<Rightarrow> Some None) of
          None \<Rightarrow> None
        | Some l' \<Rightarrow>
            (case (case r of Some rn \<Rightarrow> map_option Some (BtreeNode_unvisit_fuel k unvisitSubNodes rn)
                           | None \<Rightarrow> Some None) of
               None \<Rightarrow> None
             | Some r' \<Rightarrow> Some (BtreeNode l' r' x False)))
     else Some (BtreeNode l r x False))"

text \<open>The methods of the tree hand the budget to the method of the root node.\<close>

definition Btree_insert_fuel :: "nat \<Rightarrow> ('a \<Rightarrow> 'a \<Rightarrow> bool) \<Rightarrow> 'a \<Rightarrow> 'a Btree \<Rightarrow> 'a Btree option" where
  "Btree_insert_fuel k eq v t =
    (case root t of
       None \<Rightarrow> Some (t\<lparr>root := Some (makeNode v)\<rparr>)
     | Some n \<Rightarrow>
         map_option (\<lambda>n'. t\<lparr>root := Some n'\<rparr>)
           (BtreeNode_insert_fuel k eq v (cmp t) (allow_duplicates t) n))"

definition Btree_search_fuel ::
  "nat \<Rightarrow> ('a \<Rightarrow> 'a \<Rightarrow> bool) \<Rightarrow> 'a \<Rightarrow> 'a Btree \<Rightarrow> (ref option \<times> 'a Btree) option" where
  "Btree_search_fuel k eq v t =
    (case root t of
       Some n \<Rightarrow>
         map_option (\<lambda>(res, n'). (res, t\<lparr>root := Some n'\<rparr>)) (BtreeNode_search_fuel k eq v (cmp t) n)
     | None \<Rightarrow> Some (None, t))"

definition Btree_unvisitNodes_fuel :: "nat \<Rightarrow> 'a Btree \<Rightarrow> (error + 'a Btree) option" where
  "Btree_unvisitNodes_fuel k t =
    (case root t of
       None \<Rightarrow> Some (Inl NullDereference)
     | Some n \<Rightarrow> map_option (\<lambda>n'. Inr (t\<lparr>root := Some n'\<rparr>)) (BtreeNode_unvisit_fuel k True n))"

section \<open>The search algorithm in the words of the specification\<close>

text \<open>
  Written from the specification, not from the code: if the node's value equals the
  query (\<open>node_value == query\<close>), the answer is a reference to that node's value;
  otherwise the comparator, asked \<open>c query node_value\<close>, chooses the left child (true)
  or the right child (false); if the chosen child is absent the answer is absent,
  otherwise it is the answer of the search in that child. On a tree: absent if the root
  is absent, otherwise the answer of the search from the root.
\<close>

inductive search_spec ::
  "('a \<Rightarrow> 'a \<Rightarrow> bool) \<Rightarrow> 'a \<Rightarrow> ('a \<Rightarrow> 'a \<Rightarrow> bool) \<Rightarrow> 'a BtreeNode \<Rightarrow> ref option \<Rightarrow> bool"
  for eq :: "'a \<Rightarrow> 'a \<Rightarrow> bool" and v :: 'a and c :: "'a \<Rightarrow> 'a \<Rightarrow> bool" where
  found: "eq (get n) v \<Longrightarrow> search_spec eq v c n (Some [])"
| left_absent: "\<not> eq (get n) v \<Longrightarrow> c v (get n) \<Longrightarrow> left n = None \<Longrightarrow> search_spec eq v c n None"
| left_descend: "\<not> eq (get n) v \<Longrightarrow> c v (get n) \<Longrightarrow> left n = Some ln \<Longrightarrow>
     search_spec eq v c ln res \<Longrightarrow> search_spec eq v c n (map_option ((#) GoLeft) res)"
| right_absent: "\<not> eq (get n) v \<Longrightarrow> \<not> c v (get n) \<Longrightarrow> right n = None \<Longrightarrow> search_spec eq v c n None"
| right_descend: "\<not> eq (get n) v \<Longrightarrow> \<not> c v (get n) \<Longrightarrow> right n = Some rn \<Longrightarrow>
     search_spec eq v c rn res \<Longrightarrow> search_spec eq v c n (map_option ((#) GoRight) res)"

code_pred (modes: i \<Rightarrow> i \<Rightarrow> i \<Rightarrow> i \<Rightarrow> o \<Rightarrow> bool as search_spec_run,
                  i \<Rightarrow> i \<Rightarrow> i \<Rightarrow> i \<Rightarrow> i \<Rightarrow> bool) search_spec .

definition Btree_search_spec :: "('a \<Rightarrow> 'a \<Rightarrow> bool) \<Rightarrow> 'a \<Rightarrow> 'a Btree \<Rightarrow> ref option \<Rightarrow> bool" where
  "Btree_search_spec eq v t res =
    (case root t of None \<Rightarrow> res = None | Some n \<Rightarrow> search_spec eq v (cmp t) n res)"

section \<open>An element type whose equality is not reflexive\<close>

text \<open>
  The comparisons of \<^verbatim>\<open>double\<close> on a NaN and on the integers: \<^verbatim>\<open>a == b\<close> and \<^verbatim>\<open>a < b\<close> are
  false as soon as one operand is a NaN, and are the comparisons of the numbers
  otherwise. \<^verbatim>\<open>Btree<double>\<close> with the comparator \<^verbatim>\<open>a < b\<close> is an instance of the
  template, and these are the \<open>eq\<close> and the comparator it runs with.
\<close>

datatype fp = NaN | Finite int

fun fp_eq :: "fp \<Rightarrow> fp \<Rightarrow> bool" where
  "fp_eq (Finite a) (Finite b) = (a = b)"
| "fp_eq _ _ = False"

fun fp_less :: "fp \<Rightarrow> fp \<Rightarrow> bool" where
  "fp_less (Finite a) (Finite b) = (a < b)"
| "fp_less _ _ = False"

section \<open>Search reads and does not write\<close>

lemma BtreeNode_search_eq:
  "BtreeNode_search eq v c n = (BtreeNode_search_const eq v c n, n)"
  by (induction eq v c n rule: BtreeNode_search_const.induct) (simp split: option.split)

lemma Btree_search_eq: "Btree_search eq v t = (Btree_search_const eq v t, t)"
  by (simp add: Btree_search_def Btree_search_const_def BtreeNode_search_eq split: option.split)

text \<open>
  C10. \<^verbatim>\<open>Btree::search\<close> and \<^verbatim>\<open>BtreeNode::search\<close> on a mutable object leave it as
  it was: the node (the tree) that comes back from the call is the one that went in, with
  its structure, its values and its visited flags, and the answer is the one of the
  \<^verbatim>\<open>const\<close> overload. This holds for every \<^verbatim>\<open>operator==\<close> and comparator.
\<close>

theorem search_leaves_tree_unchanged:
  "snd (BtreeNode_search eq v c n) = n \<and>
   fst (BtreeNode_search eq v c n) = BtreeNode_search_const eq v c n \<and>
   snd (Btree_search eq v t) = t \<and>
   fst (Btree_search eq v t) = Btree_search_const eq v t"
  by (simp add: BtreeNode_search_eq Btree_search_eq)

section \<open>The scenario of the specification\<close>

text \<open>
  C8. With the comparator \<open>a < b\<close> and the values 5, 3, 8, 1 (integers, with their
  equality) inserted in this order into an empty tree (under either duplicate policy):
  the root holds 5, its left child 3, its right child 8, and the left child of node 3
  holds 1; \<open>search 8\<close> returns a reference to the right child of the root, whose value is
  8; \<open>search 9\<close> returns absent.
\<close>

theorem scenario_5_3_8_1:
  "fold (Btree_insert (=)) [5, 3, 8, 1 :: int] (Btree_new (<) ad) =
     \<lparr>root = Some (BtreeNode (Some (BtreeNode (Some (BtreeNode None None 1 False)) None 3 False))
                             (Some (BtreeNode None None 8 False)) 5 False),
      cmp = (<), allow_duplicates = ad\<rparr> \<and>
   fst (Btree_search (=) 8 (fold (Btree_insert (=)) [5, 3, 8, 1 :: int] (Btree_new (<) ad))) = Some [GoRight] \<and>
   Btree_search_const (=) 8 (fold (Btree_insert (=)) [5, 3, 8, 1 :: int] (Btree_new (<) ad)) = Some [GoRight] \<and>
   Btree_deref (fold (Btree_insert (=)) [5, 3, 8, 1 :: int] (Btree_new (<) ad)) [GoRight] = Some 8 \<and>
   fst (Btree_search (=) 9 (fold (Btree_insert (=)) [5, 3, 8, 1 :: int] (Btree_new (<) ad))) = None \<and>
   Btree_search_const (=) 9 (fold (Btree_insert (=)) [5, 3, 8, 1 :: int] (Btree_new (<) ad)) = None"
  by (simp add: Btree_search_eq Btree_search_const_def Btree_deref_def Btree_insert_def
      Btree_new_def makeNode_def)

section \<open>Insertion at the root\<close>

lemma Btree_insert_root_absent:
  "root t = None \<Longrightarrow> Btree_insert eq v t = t\<lparr>root := Some (BtreeNode None None v False)\<rparr>"
  by (simp add: Btree_insert_def makeNode_def)

lemma get_BtreeNode_insert: "get (BtreeNode_insert eq v c ad n) = get n"
  by (cases n) (simp split: option.split)

lemma isVisited_BtreeNode_insert: "isVisited (BtreeNode_insert eq v c ad n) = isVisited n"
  by (cases n) (simp split: option.split)

lemma Btree_insert_root_present:
  "root t = Some n \<Longrightarrow>
   Btree_insert eq v t = t\<lparr>root := Some (BtreeNode_insert eq v (cmp t) (allow_duplicates t) n)\<rparr>"
  by (simp add: Btree_insert_def)

lemma cmp_Btree_insert: "cmp (Btree_insert eq v t) = cmp t"
  by (simp add: Btree_insert_def split: option.split)

lemma allow_duplicates_Btree_insert:
  "allow_duplicates (Btree_insert eq v t) = allow_duplicates t"
  by (simp add: Btree_insert_def split: option.split)

text \<open>
  C2. For every tree and value, \<^verbatim>\<open>Btree::insert\<close> makes the value the root node when the
  root is absent (a fresh node, no children, not visited); otherwise the root stays the
  root, with its value and its flag, and is the node \<^verbatim>\<open>BtreeNode::insert\<close> is called on
  with the stored comparator and duplicate policy. In both cases what comes back is the
  same tree object: only its root field is written, the comparator and the policy are
  the ones it had.
\<close>

theorem insert_at_root:
  "(root t = None \<longrightarrow> Btree_insert eq v t = t\<lparr>root := Some (BtreeNode None None v False)\<rparr>) \<and>
   (root t = Some n \<longrightarrow>
      Btree_insert eq v t = t\<lparr>root := Some (BtreeNode_insert eq v (cmp t) (allow_duplicates t) n)\<rparr> \<and>
      map_option get (root (Btree_insert eq v t)) = Some (get n) \<and>
      map_option isVisited (root (Btree_insert eq v t)) = Some (isVisited n)) \<and>
   cmp (Btree_insert eq v t) = cmp t \<and> allow_duplicates (Btree_insert eq v t) = allow_duplicates t"
  by (simp add: Btree_insert_root_absent Btree_insert_root_present get_BtreeNode_insert
      isVisited_BtreeNode_insert cmp_Btree_insert allow_duplicates_Btree_insert)

theorem insert_at_root_witness:
  "root (Btree_new (<) False :: int Btree) = None \<and>
   Btree_insert (=) (5::int) (Btree_new (<) False) =
     \<lparr>root = Some (BtreeNode None None 5 False), cmp = (<), allow_duplicates = False\<rparr> \<and>
   root \<lparr>root = Some (BtreeNode None None (5::int) True), cmp = (<), allow_duplicates = False\<rparr>
     = Some (BtreeNode None None 5 True) \<and>
   Btree_insert (=) (3::int) \<lparr>root = Some (BtreeNode None None 5 True), cmp = (<), allow_duplicates = False\<rparr> =
     \<lparr>root = Some (BtreeNode (Some (BtreeNode None None 3 False)) None 5 True),
      cmp = (<), allow_duplicates = False\<rparr>"
  using insert_at_root [of "Btree_new (<) False" "(=)" "5::int" "BtreeNode None None 5 True"]
        insert_at_root [of "\<lparr>root = Some (BtreeNode None None (5::int) True), cmp = (<),
                             allow_duplicates = False\<rparr>" "(=)" "3::int" "BtreeNode None None 5 True"]
  by (simp add: Btree_new_def makeNode_def)

section \<open>Clearing the flags of an empty tree\<close>

text \<open>
  C3. \<^verbatim>\<open>Btree::unvisitNodes\<close> on an empty tree should complete and leave the tree empty.
  The method calls \<^verbatim>\<open>unvisit\<close> through the null root with no test: on the tree that
  the constructor returns it ends in the null dereference.
\<close>

theorem unvisitNodes_empty_tree:
  "Btree_unvisitNodes (Btree_new c ad) = Inl NullDereference"
  by (simp add: Btree_unvisitNodes_def Btree_new_def)

section \<open>Search finds what was inserted\<close>












section \<open>Duplicates under the policy without duplicates\<close>

lemma BtreeNode_insert_twice:
  assumes "eq v v"
  shows "BtreeNode_insert eq v c False (BtreeNode_insert eq v c False n) = BtreeNode_insert eq v c False n"
  using assms
  by (induction eq v c "False" n rule: BtreeNode_insert.induct)
     (simp add: makeNode_def split: option.split)

lemma Btree_insert_twice:
  "eq v v \<Longrightarrow> \<not> allow_duplicates t \<Longrightarrow>
   Btree_insert eq v (Btree_insert eq v t) = Btree_insert eq v t"
  by (simp add: Btree_insert_def BtreeNode_insert_twice makeNode_def split: option.split)

text \<open>
  C4 as stated fails in its second part: in a \<^verbatim>\<open>Btree<double>\<close> with the comparator
  \<open>a < b\<close> and \<open>allow_duplicates = false\<close>, after the insertions of 1 and of a NaN, a
  second insertion of the NaN attaches a third node: the duplicate test
  \<^verbatim>\<open>value == _value\<close> is false at the node that holds the first NaN.
\<close>

theorem duplicate_nan_inserted_twice:
  "root (fold (Btree_insert fp_eq) [Finite 1, NaN] (Btree_new fp_less False)) =
     Some (BtreeNode None (Some (BtreeNode None None NaN False)) (Finite 1) False) \<and>
   root (Btree_insert fp_eq NaN (fold (Btree_insert fp_eq) [Finite 1, NaN] (Btree_new fp_less False))) =
     Some (BtreeNode None (Some (BtreeNode None (Some (BtreeNode None None NaN False)) NaN False))
             (Finite 1) False) \<and>
   Btree_insert fp_eq NaN (fold (Btree_insert fp_eq) [Finite 1, NaN] (Btree_new fp_less False))
     \<noteq> fold (Btree_insert fp_eq) [Finite 1, NaN] (Btree_new fp_less False) \<and>
   BtreeNode_insert fp_eq NaN fp_less False (BtreeNode_insert fp_eq NaN fp_less False (makeNode (Finite 1)))
     \<noteq> BtreeNode_insert fp_eq NaN fp_less False (makeNode (Finite 1))"
  by (simp add: Btree_insert_def Btree_new_def makeNode_def)

text \<open>
  C4, amended. When \<open>allow_duplicates\<close> is false and the value equals (\<open>value == _value\<close>)
  the value of the node \<^verbatim>\<open>BtreeNode::insert\<close> is called on, the node comes back as it
  was: no node is created, nothing below changes, and the method has no error branch.
  Inserting the same value twice in direct succession, into a node or into a tree, gives
  after the second insertion what the first one gave, provided the value equals itself
  (\<open>v == v\<close>).
\<close>

theorem duplicate_insert_dropped:
  "(\<not> ad \<and> eq v (get n) \<longrightarrow> BtreeNode_insert eq v c ad n = n) \<and>
   (eq v v \<longrightarrow>
      BtreeNode_insert eq v c False (BtreeNode_insert eq v c False n) = BtreeNode_insert eq v c False n) \<and>
   (eq v v \<and> \<not> allow_duplicates t \<longrightarrow>
      Btree_insert eq v (Btree_insert eq v t) = Btree_insert eq v t)"
proof (intro conjI impI)
  assume "\<not> ad \<and> eq v (get n)"
  then show "BtreeNode_insert eq v c ad n = n" by (cases n) simp
next
  assume "eq v v"
  then show "BtreeNode_insert eq v c False (BtreeNode_insert eq v c False n)
    = BtreeNode_insert eq v c False n"
    by (rule BtreeNode_insert_twice)
next
  assume "eq v v \<and> \<not> allow_duplicates t"
  then show "Btree_insert eq v (Btree_insert eq v t) = Btree_insert eq v t"
    by (simp add: Btree_insert_twice)
qed

theorem duplicate_insert_dropped_witness:
  "(5::int) = get (BtreeNode (Some (BtreeNode None None 3 False)) None 5 True) \<and>
   BtreeNode_insert (=) (5::int) (<) False (BtreeNode (Some (BtreeNode None None 3 False)) None 5 True)
     = BtreeNode (Some (BtreeNode None None 3 False)) None 5 True \<and>
   BtreeNode_insert (=) (5::int) (<) False
       (BtreeNode_insert (=) 5 (<) False (BtreeNode (Some (BtreeNode None None 3 False)) None 5 True))
     = BtreeNode_insert (=) 5 (<) False (BtreeNode (Some (BtreeNode None None 3 False)) None 5 True) \<and>
   \<not> allow_duplicates (Btree_new (<) False :: int Btree) \<and>
   Btree_insert (=) (5::int) (Btree_insert (=) 5 (Btree_new (<) False))
     = Btree_insert (=) 5 (Btree_new (<) False) \<and>
   root (Btree_insert (=) (5::int) (Btree_insert (=) 5 (Btree_new (<) False)))
     = Some (BtreeNode None None 5 False)"
  using duplicate_insert_dropped [of False "(=)" "5::int"
      "BtreeNode (Some (BtreeNode None None 3 False)) None 5 True" "(<)" "Btree_new (<) False"]
  by (simp add: Btree_new_def Btree_insert_def makeNode_def)

section \<open>The search of the code is the search of the specification\<close>

lemma search_spec_complete: "search_spec eq v c n (BtreeNode_search_const eq v c n)"
proof (induction eq v c n rule: BtreeNode_search_const.induct)
  case (1 eq v c l r x vis)
  show ?case
  proof (cases "eq x v")
    case True
    then show ?thesis by (simp add: search_spec.found)
  next
    case differs: False
    show ?thesis
    proof (cases "c v x")
      case goes_left: True
      show ?thesis
      proof (cases l)
        case None
        with differs goes_left show ?thesis by (simp add: search_spec.left_absent)
      next
        case (Some ln)
        with differs goes_left "1.IH"(1) show ?thesis by (simp add: search_spec.left_descend)
      qed
    next
      case goes_right: False
      show ?thesis
      proof (cases r)
        case None
        with differs goes_right show ?thesis by (simp add: search_spec.right_absent)
      next
        case (Some rn)
        with differs goes_right "1.IH"(2) show ?thesis by (simp add: search_spec.right_descend)
      qed
    qed
  qed
qed

lemma search_spec_sound: "search_spec eq v c n res \<Longrightarrow> BtreeNode_search_const eq v c n = res"
  by (induction rule: search_spec.induct) (case_tac n; simp)+

lemma search_spec_iff: "search_spec eq v c n res \<longleftrightarrow> BtreeNode_search_const eq v c n = res"
proof
  assume "search_spec eq v c n res"
  then show "BtreeNode_search_const eq v c n = res" by (rule search_spec_sound)
next
  assume "BtreeNode_search_const eq v c n = res"
  then show "search_spec eq v c n res" using search_spec_complete [of eq v c n] by simp
qed

lemma Btree_search_spec_iff:
  "Btree_search_spec eq v t res \<longleftrightarrow> Btree_search_const eq v t = res"
  by (cases "root t") (auto simp: Btree_search_spec_def Btree_search_const_def search_spec_iff)

text \<open>
  C5. \<^verbatim>\<open>Btree::search\<close> and \<^verbatim>\<open>BtreeNode::search\<close> (both overloads) return what the
  algorithm of the specification prescribes, and nothing else is prescribed: absent on
  an absent root; at a node, the reference to its value if it equals the query,
  otherwise the one path the comparator chooses, ending absent at an absent child.
  This holds for every \<^verbatim>\<open>operator==\<close> and comparator.
\<close>

theorem search_follows_spec:
  "(Btree_search_spec eq v t res \<longleftrightarrow> fst (Btree_search eq v t) = res) \<and>
   (Btree_search_spec eq v t res \<longleftrightarrow> Btree_search_const eq v t = res) \<and>
   (search_spec eq v c n res' \<longleftrightarrow> fst (BtreeNode_search eq v c n) = res') \<and>
   (search_spec eq v c n res' \<longleftrightarrow> BtreeNode_search_const eq v c n = res')"
  by (simp add: Btree_search_spec_iff search_spec_iff Btree_search_eq BtreeNode_search_eq)

theorem search_follows_spec_witness:
  "Btree_search_spec (=) (8::int) (fold (Btree_insert (=)) [5, 3, 8, 1 :: int] (Btree_new (<) True))
     (Some [GoRight]) \<and>
   \<not> Btree_search_spec (=) (8::int) (fold (Btree_insert (=)) [5, 3, 8, 1 :: int] (Btree_new (<) True)) None \<and>
   Btree_search_spec (=) (4::int) (fold (Btree_insert (=)) [5, 3, 8, 1 :: int] (Btree_new (<) True)) None \<and>
   search_spec (=) (8::int) (<) (BtreeNode (Some (BtreeNode (Some (BtreeNode None None 1 False)) None 3 False))
                                 (Some (BtreeNode None None 8 False)) 5 False) (Some [GoRight]) \<and>
   search_spec (=) (4::int) (<) (BtreeNode (Some (BtreeNode (Some (BtreeNode None None 1 False)) None 3 False))
                                 (Some (BtreeNode None None 8 False)) 5 False) None"
  using search_follows_spec [of "(=)" "8::int" "fold (Btree_insert (=)) [5, 3, 8, 1 :: int] (Btree_new (<) True)"
          "Some [GoRight]" "(<)"
          "BtreeNode (Some (BtreeNode (Some (BtreeNode None None 1 False)) None 3 False))
                     (Some (BtreeNode None None 8 False)) 5 False" "Some [GoRight]"]
        search_follows_spec [of "(=)" "8::int" "fold (Btree_insert (=)) [5, 3, 8, 1 :: int] (Btree_new (<) True)"
          None "(<)"
          "BtreeNode (Some (BtreeNode (Some (BtreeNode None None 1 False)) None 3 False))
                     (Some (BtreeNode None None 8 False)) 5 False" None]
        search_follows_spec [of "(=)" "4::int" "fold (Btree_insert (=)) [5, 3, 8, 1 :: int] (Btree_new (<) True)"
          None "(<)"
          "BtreeNode (Some (BtreeNode (Some (BtreeNode None None 1 False)) None 3 False))
                     (Some (BtreeNode None None 8 False)) 5 False" None]
  by (simp add: Btree_search_eq BtreeNode_search_eq Btree_search_const_def Btree_insert_def
      Btree_new_def makeNode_def)

section \<open>The partition by the comparator\<close>

lemma elems_insert:
  "set (elems (BtreeNode_insert eq v c ad n)) \<subseteq> insert v (set (elems n))"
  by (induction eq v c ad n rule: BtreeNode_insert.induct)
     (auto simp: makeNode_def split: option.splits if_splits)

lemma list_all_elems_insert:
  "P v \<Longrightarrow> list_all P (elems n) \<Longrightarrow> list_all P (elems (BtreeNode_insert eq v c ad n))"
  using elems_insert [of eq v c ad n] by (auto simp: list_all_iff)

lemma partitioned_insert:
  "partitioned c n \<Longrightarrow> partitioned c (BtreeNode_insert eq v c ad n)"
proof (induction eq v c ad n rule: BtreeNode_insert.induct)
  case (1 eq v c ad l r x vis)
  show ?case
  proof (cases "\<not> ad \<and> eq v x")
    case True
    with "1.prems" show ?thesis by simp
  next
    case keep: False
    show ?thesis
    proof (cases "c v x")
      case goes_left: True
      show ?thesis
      proof (cases l)
        case None
        with keep goes_left "1.prems" show ?thesis by (simp add: makeNode_def)
      next
        case (Some ln)
        from "1.prems" Some have "partitioned c ln" and below: "list_all (\<lambda>y. c y x) (elems ln)"
          by simp_all
        then have "partitioned c (BtreeNode_insert eq v c ad ln)"
          using "1.IH"(1) [OF keep goes_left Some] by simp
        moreover have "list_all (\<lambda>y. c y x) (elems (BtreeNode_insert eq v c ad ln))"
          using goes_left below by (rule list_all_elems_insert)
        ultimately show ?thesis
          using keep goes_left Some "1.prems" by simp
      qed
    next
      case goes_right: False
      show ?thesis
      proof (cases r)
        case None
        with keep goes_right "1.prems" show ?thesis by (simp add: makeNode_def)
      next
        case (Some rn)
        from "1.prems" Some have "partitioned c rn" and below: "list_all (\<lambda>y. \<not> c y x) (elems rn)"
          by simp_all
        then have "partitioned c (BtreeNode_insert eq v c ad rn)"
          using "1.IH"(2) [OF keep goes_right Some] by simp
        moreover have "list_all (\<lambda>y. \<not> c y x) (elems (BtreeNode_insert eq v c ad rn))"
          using goes_right below by (rule list_all_elems_insert)
        ultimately show ?thesis
          using keep goes_right Some "1.prems" by simp
      qed
    qed
  qed
qed

lemma Btree_partitioned_insert:
  "Btree_partitioned t \<Longrightarrow> Btree_partitioned (Btree_insert eq v t)"
  by (cases "root t")
     (simp_all add: Btree_partitioned_def Btree_insert_def partitioned_insert makeNode_def)

lemma Btree_partitioned_fold:
  "Btree_partitioned t \<Longrightarrow> Btree_partitioned (fold (Btree_insert eq) vs t)"
  by (induction vs arbitrary: t) (simp_all add: Btree_partitioned_insert)

text \<open>
  C6. Every insertion keeps the partition: in a tree built by insertions with a fixed
  comparator, at every node, each value below the left slot answered true to the
  comparator against the node's value when it was inserted, and each value below the
  right slot answered false. The comparator is a function, so the answer at insertion
  is the answer now. The first two parts say that one \<^verbatim>\<open>insert\<close> (on a node, on a tree)
  preserves the partition; the third that every tree built from the empty one has it.
  This holds for every \<^verbatim>\<open>operator==\<close>.
\<close>

theorem insert_preserves_partition:
  "(partitioned c n \<longrightarrow> partitioned c (BtreeNode_insert eq v c ad n)) \<and>
   (Btree_partitioned t \<longrightarrow> Btree_partitioned (Btree_insert eq v t)) \<and>
   Btree_partitioned (fold (Btree_insert eq) vs (Btree_new c ad))"
proof (intro conjI impI)
  assume "partitioned c n"
  then show "partitioned c (BtreeNode_insert eq v c ad n)" by (rule partitioned_insert)
next
  assume "Btree_partitioned t"
  then show "Btree_partitioned (Btree_insert eq v t)" by (rule Btree_partitioned_insert)
next
  have "Btree_partitioned (Btree_new c ad)" by (simp add: Btree_partitioned_def Btree_new_def)
  then show "Btree_partitioned (fold (Btree_insert eq) vs (Btree_new c ad))"
    by (rule Btree_partitioned_fold)
qed

theorem insert_preserves_partition_witness:
  "partitioned (<) (BtreeNode (Some (BtreeNode None None 3 False)) (Some (BtreeNode None None 8 False))
                      (5::int) False) \<and>
   partitioned (<) (BtreeNode_insert (=) 4 (<) True
      (BtreeNode (Some (BtreeNode None None 3 False)) (Some (BtreeNode None None 8 False)) (5::int) False)) \<and>
   Btree_partitioned (fold (Btree_insert (=)) [5, 3, 8 :: int] (Btree_new (<) True)) \<and>
   Btree_partitioned (Btree_insert (=) 4 (fold (Btree_insert (=)) [5, 3, 8 :: int] (Btree_new (<) True))) \<and>
   \<not> partitioned (<) (BtreeNode (Some (BtreeNode None None 9 False)) None (5::int) False)"
  using insert_preserves_partition [of "(<)"
      "BtreeNode (Some (BtreeNode None None 3 False)) (Some (BtreeNode None None 8 False)) (5::int) False"
      "(=)" 4 True "fold (Btree_insert (=)) [5, 3, 8 :: int] (Btree_new (<) True)" "[5, 3, 8]"]
  by (simp add: Btree_partitioned_def Btree_insert_def Btree_new_def makeNode_def)

section \<open>Clearing the flags\<close>

lemma nodes_unvisit: "list_all (\<lambda>m. \<not> isVisited m) (nodes (BtreeNode_unvisit True n))"
  by (induction "True" n rule: BtreeNode_unvisit.induct) (simp split: option.split)

lemma shape_unvisit: "shape (BtreeNode_unvisit b n) = shape n"
  by (induction b n rule: BtreeNode_unvisit.induct) (simp split: option.split)

text \<open>
  C7. On a tree with a root, \<^verbatim>\<open>Btree::unvisitNodes\<close> returns normally; afterwards
  \<^verbatim>\<open>isVisited()\<close> is false at every node of the tree, and the structure of the tree and
  the stored values are what they were (the comparator and the duplicate policy too:
  only the root field of the tree is written).
\<close>

theorem unvisitNodes_clears_flags:
  assumes "root t = Some n"
  shows "Btree_unvisitNodes t = Inr (t\<lparr>root := Some (BtreeNode_unvisit True n)\<rparr>) \<and>
         list_all (\<lambda>m. \<not> isVisited m) (nodes (BtreeNode_unvisit True n)) \<and>
         shape (BtreeNode_unvisit True n) = shape n"
  using assms by (simp add: Btree_unvisitNodes_def nodes_unvisit shape_unvisit)

theorem unvisitNodes_clears_flags_witness:
  "root \<lparr>root = Some (BtreeNode (Some (BtreeNode None None 3 True)) None (5::int) True),
         cmp = (<), allow_duplicates = True\<rparr>
     = Some (BtreeNode (Some (BtreeNode None None 3 True)) None 5 True) \<and>
   Btree_unvisitNodes \<lparr>root = Some (BtreeNode (Some (BtreeNode None None 3 True)) None (5::int) True),
         cmp = (<), allow_duplicates = True\<rparr>
     = Inr \<lparr>root = Some (BtreeNode (Some (BtreeNode None None 3 False)) None 5 False),
         cmp = (<), allow_duplicates = True\<rparr>"
  using unvisitNodes_clears_flags [of
      "\<lparr>root = Some (BtreeNode (Some (BtreeNode None None 3 True)) None (5::int) True),
         cmp = (<), allow_duplicates = True\<rparr>"
      "BtreeNode (Some (BtreeNode None None 3 True)) None 5 True"]
  by simp

section \<open>Termination within the height of the tree\<close>

lemma insert_fuel_enough:
  "height n \<le> k \<Longrightarrow> BtreeNode_insert_fuel k eq v c ad n = Some (BtreeNode_insert eq v c ad n)"
proof (induction k eq v c ad n rule: BtreeNode_insert_fuel.induct)
  case (1 eq v c ad n)
  then show ?case by (cases n) simp
next
  case (2 k eq v c ad l r x vis)
  then show ?case by (auto split: option.split)
qed

lemma search_fuel_enough:
  "height n \<le> k \<Longrightarrow> BtreeNode_search_fuel k eq v c n = Some (BtreeNode_search eq v c n)"
proof (induction k eq v c n rule: BtreeNode_search_fuel.induct)
  case (1 eq v c n)
  then show ?case by (cases n) simp
next
  case (2 k eq v c l r x vis)
  then show ?case by (auto split: option.split prod.split)
qed

lemma unvisit_fuel_enough_True:
  "height n \<le> k \<Longrightarrow> BtreeNode_unvisit_fuel k True n = Some (BtreeNode_unvisit True n)"
proof (induction k arbitrary: n)
  case 0
  then show ?case by (cases n) simp
next
  case (Suc k)
  obtain l r x vis where n: "n = BtreeNode l r x vis" by (cases n)
  have L: "(case l of Some ln \<Rightarrow> map_option Some (BtreeNode_unvisit_fuel k True ln) | None \<Rightarrow> Some None)
         = Some (case l of Some ln \<Rightarrow> Some (BtreeNode_unvisit True ln) | None \<Rightarrow> None)"
  proof (cases l)
    case None
    then show ?thesis by simp
  next
    case (Some ln)
    with Suc.prems n have "height ln \<le> k" by simp
    with Some show ?thesis by (simp add: Suc.IH)
  qed
  have R: "(case r of Some rn \<Rightarrow> map_option Some (BtreeNode_unvisit_fuel k True rn) | None \<Rightarrow> Some None)
         = Some (case r of Some rn \<Rightarrow> Some (BtreeNode_unvisit True rn) | None \<Rightarrow> None)"
  proof (cases r)
    case None
    then show ?thesis by simp
  next
    case (Some rn)
    with Suc.prems n have "height rn \<le> k" by simp
    with Some show ?thesis by (simp add: Suc.IH)
  qed
  show ?case unfolding n by (simp add: L R)
qed

lemma unvisit_fuel_enough:
  "height n \<le> k \<Longrightarrow> BtreeNode_unvisit_fuel k b n = Some (BtreeNode_unvisit b n)"
proof (cases b)
  case True
  assume "height n \<le> k"
  with True show ?thesis by (simp add: unvisit_fuel_enough_True)
next
  case False
  assume "height n \<le> k"
  then obtain k' where "k = Suc k'" by (cases n; cases k) simp_all
  with False show ?thesis by (cases n) simp
qed

text \<open>
  With a budget of nested calls of at least the height, \<^verbatim>\<open>insert\<close>, \<^verbatim>\<open>search\<close> and
  \<^verbatim>\<open>unvisit\<close> on a node, \<^verbatim>\<open>insert\<close> and \<^verbatim>\<open>search\<close> on a tree, and \<^verbatim>\<open>unvisitNodes\<close> on a
  tree with a root return, and return what the methods without a budget return;
  \<^verbatim>\<open>visit\<close> writes one field and makes no call.
\<close>

lemma operations_return_within_height:
  assumes "height n \<le> k" and "Btree_height t \<le> k"
  shows "BtreeNode_insert_fuel k eq v c ad n = Some (BtreeNode_insert eq v c ad n) \<and>
         BtreeNode_search_fuel k eq v c n = Some (BtreeNode_search eq v c n) \<and>
         BtreeNode_unvisit_fuel k b n = Some (BtreeNode_unvisit b n) \<and>
         BtreeNode_visit n = BtreeNode (left n) (right n) (get n) True \<and>
         Btree_insert_fuel k eq v t = Some (Btree_insert eq v t) \<and>
         Btree_search_fuel k eq v t = Some (Btree_search eq v t) \<and>
         (\<forall>m. root t = Some m \<longrightarrow>
            Btree_unvisitNodes_fuel k t = Some (Inr (t\<lparr>root := Some (BtreeNode_unvisit True m)\<rparr>)))"
proof (intro conjI allI impI)
  show "BtreeNode_insert_fuel k eq v c ad n = Some (BtreeNode_insert eq v c ad n)"
    using assms(1) by (rule insert_fuel_enough)
  show "BtreeNode_search_fuel k eq v c n = Some (BtreeNode_search eq v c n)"
    using assms(1) by (rule search_fuel_enough)
  show "BtreeNode_unvisit_fuel k b n = Some (BtreeNode_unvisit b n)"
    using assms(1) by (rule unvisit_fuel_enough)
  show "BtreeNode_visit n = BtreeNode (left n) (right n) (get n) True"
    by (cases n) simp
  show "Btree_insert_fuel k eq v t = Some (Btree_insert eq v t)"
    using assms(2)
    by (cases "root t")
       (simp_all add: Btree_insert_fuel_def Btree_insert_def Btree_height_def insert_fuel_enough)
  show "Btree_search_fuel k eq v t = Some (Btree_search eq v t)"
    using assms(2)
    by (cases "root t")
       (simp_all add: Btree_search_fuel_def Btree_search_def Btree_height_def search_fuel_enough
          split: prod.split)
  show "Btree_unvisitNodes_fuel k t = Some (Inr (t\<lparr>root := Some (BtreeNode_unvisit True m)\<rparr>))"
    if "root t = Some m" for m
    using assms(2) that
    by (simp add: Btree_unvisitNodes_fuel_def Btree_height_def unvisit_fuel_enough)
qed

text \<open>
  C9. Every operation, \<^verbatim>\<open>unvisitNodes\<close> included, should terminate on every finite tree,
  with a recursion no deeper than the height of the tree. The empty tree has height 0;
  on it \<^verbatim>\<open>Btree::unvisitNodes\<close> does not return, whatever the budget of nested calls: it
  ends in the null dereference, as its first step.
\<close>

theorem unvisitNodes_does_not_return_on_empty_tree:
  "Btree_height (Btree_new c ad) = 0 \<and>
   Btree_unvisitNodes_fuel k (Btree_new c ad) = Some (Inl NullDereference)"
  by (simp add: Btree_height_def Btree_unvisitNodes_fuel_def Btree_new_def)

end
